theory Spec2Isabelle
  imports Complex_Main
begin

section \<open>Data model\<close>

text \<open>
  A JavaScript \<open>number\<close> is an IEEE double: a finite value, one of the two infinities, or
  NaN. Only the comparison \<open>marks > 0\<close> is ever computed on it, so the finite values are
  kept as reals and the three special values are constructors of their own.
\<close>

datatype number = Finite real | PosInfinity | NegInfinity | NaN

text \<open>The JavaScript comparison \<open>n > 0\<close>: false on NaN.\<close>

fun gt_zero :: "number \<Rightarrow> bool" where
  "gt_zero (Finite r) = (0 < r)"
| "gt_zero PosInfinity = True"
| "gt_zero NegInfinity = False"
| "gt_zero NaN = False"

text \<open>
  A number in the body of a request to the store. The body is JSON, and \<open>JSON.stringify\<close>
  writes NaN and the two infinities as \<open>null\<close>: only a finite number reaches the store.
\<close>

fun json_number :: "number \<Rightarrow> number option" where
  "json_number (Finite r) = Some (Finite r)"
| "json_number PosInfinity = None"
| "json_number NegInfinity = None"
| "json_number NaN = None"

text \<open>
  The nested \<open>student\<close> object of \<open>LiveSession\<close> (the joined \<open>profiles\<close> row).
\<close>

record profile =
  full_name :: string
  email :: string

text \<open>
  A row of the table \<open>test_sessions\<close>, with the columns that \<open>interface LiveSession\<close>
  of useLiveEvaluation declares. A field of type \<open>T | null\<close> is a \<open>T option\<close> with
  \<open>None\<close> for \<open>null\<close>. The field \<open>id\<close> is named \<open>s_id\<close> here (and \<open>a_id\<close> in
  answers), every other field keeps its name.
\<close>

record test_session =
  s_id :: string
  student_id :: string
  test_id :: string
  status :: string
  started_at :: "string option"
  submitted_at :: "string option"
  total_warnings :: int
  tab_switch_count :: int
  fullscreen_exit_count :: int

text \<open>
  \<open>interface LiveSession\<close>: the row together with the optional \<open>student\<close> object.
\<close>

record LiveSession = test_session +
  student :: "profile option"

text \<open>\<open>interface LiveAnswer\<close> of useLiveEvaluation.\<close>

record LiveAnswer =
  a_id :: string
  session_id :: string
  question_id :: string
  student_answer :: "string option"
  marks_awarded :: "number option"
  is_correct :: "bool option"
  graded_by :: "string option"
  graded_at :: "string option"

text \<open>
  The \<open>new\<close> object of an UPDATE event on \<open>test_sessions\<close>: any subset of the columns.
  A column that the event does not carry is \<open>None\<close>; a column it carries is \<open>Some v\<close>
  (with \<open>v = None\<close> for a null of a nullable column).
\<close>

record session_patch =
  new_s_id :: "string option"
  new_student_id :: "string option"
  new_test_id :: "string option"
  new_status :: "string option"
  new_started_at :: "string option option"
  new_submitted_at :: "string option option"
  new_total_warnings :: "int option"
  new_tab_switch_count :: "int option"
  new_fullscreen_exit_count :: "int option"

text \<open>The \<open>new\<close> object of an UPDATE event on \<open>answers\<close>.\<close>

record answer_patch =
  new_a_id :: "string option"
  new_session_id :: "string option"
  new_question_id :: "string option"
  new_student_answer :: "string option option"
  new_marks_awarded :: "number option option"
  new_is_correct :: "bool option option"
  new_graded_by :: "string option option"
  new_graded_at :: "string option option"

text \<open>
  A change-feed payload: \<open>eventType\<close> with the \<open>new\<close> row of an INSERT, the \<open>new\<close>
  object of an UPDATE, or \<open>old.id\<close> of a DELETE.
\<close>

datatype ('row, 'patch) payload = INSERT 'row | UPDATE 'patch | DELETE string

section \<open>The change reconciler of useLiveEvaluation\<close>

text \<open>
  One key of the object spread \<open>{ ...s, ...payload.new }\<close>: the value of the event when
  the event carries the key, the value of the stored record otherwise.
\<close>

definition spread :: "'a \<Rightarrow> 'a option \<Rightarrow> 'a" where
  "spread old new = (case new of None \<Rightarrow> old | Some v \<Rightarrow> v)"

definition merge_session :: "LiveSession \<Rightarrow> session_patch \<Rightarrow> LiveSession" where
  "merge_session s p =
     s\<lparr> s_id := spread (s_id s) (new_s_id p),
        student_id := spread (student_id s) (new_student_id p),
        test_id := spread (test_id s) (new_test_id p),
        status := spread (status s) (new_status p),
        started_at := spread (started_at s) (new_started_at p),
        submitted_at := spread (submitted_at s) (new_submitted_at p),
        total_warnings := spread (total_warnings s) (new_total_warnings p),
        tab_switch_count := spread (tab_switch_count s) (new_tab_switch_count p),
        fullscreen_exit_count := spread (fullscreen_exit_count s) (new_fullscreen_exit_count p) \<rparr>"

definition merge_answer :: "LiveAnswer \<Rightarrow> answer_patch \<Rightarrow> LiveAnswer" where
  "merge_answer a p =
     a\<lparr> a_id := spread (a_id a) (new_a_id p),
        session_id := spread (session_id a) (new_session_id p),
        question_id := spread (question_id a) (new_question_id p),
        student_answer := spread (student_answer a) (new_student_answer p),
        marks_awarded := spread (marks_awarded a) (new_marks_awarded p),
        is_correct := spread (is_correct a) (new_is_correct p),
        graded_by := spread (graded_by a) (new_graded_by p),
        graded_at := spread (graded_at a) (new_graded_at p) \<rparr>"

text \<open>The object \<open>{ ...data, student: data.profiles }\<close>.\<close>

definition with_student :: "test_session \<Rightarrow> profile option \<Rightarrow> LiveSession" where
  "with_student data profiles = test_session.extend data (LiveSession.fields profiles)"

text \<open>
  The callback of the session channel. On INSERT it reads the session back from the
  durable store (\<open>select ... .eq('id', payload.new.id).single()\<close>); \<open>fetch\<close> is that read:
  the row with its joined \<open>profiles\<close> object, or \<open>None\<close> when \<open>data\<close> is null. The
  fetched \<open>data\<close> is appended as \<open>{ ...data, student: data.profiles }\<close>.
  The result is the new value of the \<open>sessions\<close> state; the toasts are not part of it.
\<close>

definition session_handler ::
  "(string \<Rightarrow> (test_session \<times> profile option) option) \<Rightarrow>
   (test_session, session_patch) payload \<Rightarrow> LiveSession list \<Rightarrow> LiveSession list" where
  "session_handler fetch pl prev =
     (case pl of
        INSERT new \<Rightarrow>
          (case fetch (s_id new) of
             Some (data, profiles) \<Rightarrow> prev @ [with_student data profiles]
           | None \<Rightarrow> prev)
      | UPDATE new \<Rightarrow>
          map (\<lambda>s. if Some (s_id s) = new_s_id new then merge_session s new else s) prev
      | DELETE old_id \<Rightarrow> filter (\<lambda>s. s_id s \<noteq> old_id) prev)"

text \<open>The callback of the answer channel.\<close>

definition answer_handler ::
  "(LiveAnswer, answer_patch) payload \<Rightarrow> LiveAnswer list \<Rightarrow> LiveAnswer list" where
  "answer_handler pl prev =
     (case pl of
        INSERT new \<Rightarrow> prev @ [new]
      | UPDATE new \<Rightarrow>
          map (\<lambda>a. if Some (a_id a) = new_a_id new then merge_answer a new else a) prev
      | DELETE old_id \<Rightarrow> filter (\<lambda>a. a_id a \<noteq> old_id) prev)"

section \<open>The stats aggregator\<close>

record live_stats =
  totalSessions :: int
  activeSessions :: int
  submittedSessions :: int
  terminatedSessions :: int
  totalAnswers :: int
  gradedAnswers :: int
  pendingGrading :: int

text \<open>
  \<open>getLiveStats\<close>. The counts are JavaScript numbers, so \<open>totalAnswers - gradedAnswers\<close>
  is a subtraction of integers, not the truncating one of \<open>nat\<close>.
\<close>

definition getLiveStats :: "LiveSession list \<Rightarrow> LiveAnswer list \<Rightarrow> live_stats" where
  "getLiveStats sessions answers =
     (let activeSessions = filter (\<lambda>s. status s = ''active'' \<or> status s = ''in_progress'') sessions;
          submittedSessions = filter (\<lambda>s. status s = ''completed'' \<or> status s = ''submitted'') sessions;
          terminatedSessions = filter (\<lambda>s. status s = ''terminated'') sessions;
          totalAnswers = int (length answers);
          gradedAnswers = int (length (filter (\<lambda>a. graded_by a \<noteq> None) answers))
      in \<lparr> totalSessions = int (length sessions),
           activeSessions = int (length activeSessions),
           submittedSessions = int (length submittedSessions),
           terminatedSessions = int (length terminatedSessions),
           totalAnswers = totalAnswers,
           gradedAnswers = gradedAnswers,
           pendingGrading = totalAnswers - gradedAnswers \<rparr>)"

section \<open>The durable store\<close>

text \<open>
  A row of the table \<open>answers\<close>: the columns of \<open>LiveAnswer\<close> and \<open>updated_at\<close>, which
  \<open>submitAnswer\<close> writes.
\<close>

record answer_row = LiveAnswer +
  updated_at :: "string option"

record db =
  test_sessions :: "test_session list"
  answers :: "answer_row list"

text \<open>
  The requests that the hooks send to the store. Each is a single statement on one table;
  its arguments are the values of its \<open>eq\<close> filters (or of the inserted key columns).
\<close>

datatype request =
    SelectSession string string
  | InsertSession string string
  | SelectAnswer string string
  | UpdateAnswer string
  | InsertAnswer string string
  | UpdateSession string

datatype error = StoreError request

text \<open>
  What a hook reads from outside the store's tables: the clock (\<open>new Date().toISOString()\<close>),
  which requests the store answers with an error (network, authorisation), the \<open>id\<close> that the
  store gives a new row (a function of the ids in the table), and the column defaults of the
  two tables, which no source file declares.
\<close>

record env =
  now :: string
  fault :: "request \<Rightarrow> bool"
  gen_id :: "string list \<Rightarrow> string"
  session_defaults :: test_session
  answer_defaults :: answer_row

text \<open>
  \<open>.single()\<close>: \<open>data\<close> is the row when the filters select exactly one row, and null when
  they select none or several (the response then carries an error). A request that fails
  has null \<open>data\<close> as well.
\<close>

definition single :: "bool \<Rightarrow> 'a list \<Rightarrow> 'a option" where
  "single failed rows = (if failed then None else case rows of [r] \<Rightarrow> Some r | _ \<Rightarrow> None)"

text \<open>
  \<open>update(values).eq('id', i)\<close> is the SQL statement \<open>UPDATE ... WHERE id = i\<close>: every row
  with that id is changed, and a statement that matches no row changes nothing and is no
  error.
\<close>

definition update_where :: "('a \<Rightarrow> bool) \<Rightarrow> ('a \<Rightarrow> 'a) \<Rightarrow> 'a list \<Rightarrow> 'a list" where
  "update_where matches change rows = map (\<lambda>r. if matches r then change r else r) rows"

record toast =
  title :: string
  description :: string
  variant :: "string option"

section \<open>useTestSubmission\<close>

definition sessions_of :: "db \<Rightarrow> string \<Rightarrow> string \<Rightarrow> test_session list" where
  "sessions_of d testId studentId =
     filter (\<lambda>s. test_id s = testId \<and> student_id s = studentId) (test_sessions d)"

text \<open>
  \<open>getOrCreateSession\<close>. The \<open>error\<close> of the lookup is bound to \<open>fetchError\<close> and never
  read: only \<open>data\<close> decides. \<open>throw createError\<close> is the result \<open>Inl\<close>.
\<close>

definition getOrCreateSession ::
  "env \<Rightarrow> db \<Rightarrow> string \<Rightarrow> string \<Rightarrow> (error + test_session) \<times> db" where
  "getOrCreateSession e d testId studentId =
     (case single (fault e (SelectSession testId studentId)) (sessions_of d testId studentId) of
        Some existingSession \<Rightarrow> (Inr existingSession, d)
      | None \<Rightarrow>
          if fault e (InsertSession testId studentId)
          then (Inl (StoreError (InsertSession testId studentId)), d)
          else
            let newSession = (session_defaults e)
                  \<lparr> s_id := gen_id e (map s_id (test_sessions d)),
                    test_id := testId,
                    student_id := studentId,
                    status := ''active'',
                    started_at := Some (now e) \<rparr>
            in (Inr newSession, d\<lparr>test_sessions := test_sessions d @ [newSession]\<rparr>))"

record SubmitAnswerData =
  sessionId :: string
  questionId :: string
  answer :: string

definition answers_of :: "db \<Rightarrow> string \<Rightarrow> string \<Rightarrow> answer_row list" where
  "answers_of d sid qid =
     filter (\<lambda>a. session_id a = sid \<and> question_id a = qid) (answers d)"

text \<open>
  \<open>submitAnswer\<close>: every error is caught and turned into the result \<open>false\<close>.
\<close>

definition submitAnswer :: "env \<Rightarrow> db \<Rightarrow> SubmitAnswerData \<Rightarrow> bool \<times> db" where
  "submitAnswer e d x =
     (case single (fault e (SelectAnswer (sessionId x) (questionId x)))
             (answers_of d (sessionId x) (questionId x)) of
        Some existingAnswer \<Rightarrow>
          if fault e (UpdateAnswer (a_id existingAnswer)) then (False, d)
          else (True, d\<lparr>answers :=
                  update_where (\<lambda>a. a_id a = a_id existingAnswer)
                    (\<lambda>a. a\<lparr>student_answer := Some (answer x), updated_at := Some (now e)\<rparr>)
                    (answers d)\<rparr>)
      | None \<Rightarrow>
          if fault e (InsertAnswer (sessionId x) (questionId x)) then (False, d)
          else (True, d\<lparr>answers := answers d @
                  [(answer_defaults e)
                     \<lparr> a_id := gen_id e (map a_id (answers d)),
                       session_id := sessionId x,
                       question_id := questionId x,
                       student_answer := Some (answer x) \<rparr>]\<rparr>))"

text \<open>
  The answer phase of \<open>submitTest\<close>: one \<open>submitAnswer\<close> for each entry of \<open>answers\<close>
  (\<open>Object.entries\<close>, so a list of pairs with distinct keys), and \<open>Promise.all\<close> of their
  results. The requests of different entries are served here one entry after the other, in
  the order of the entries. \<open>submitAnswer\<close> never rejects, so \<open>Promise.all\<close> resolves to
  the list of their boolean results.
\<close>

fun submitAnswers :: "env \<Rightarrow> db \<Rightarrow> string \<Rightarrow> (string \<times> string) list \<Rightarrow> bool list \<times> db" where
  "submitAnswers e d sid [] = ([], d)"
| "submitAnswers e d sid ((qid, txt) # rest) =
     (let (ok, d1) = submitAnswer e d \<lparr>sessionId = sid, questionId = qid, answer = txt\<rparr>;
          (oks, d2) = submitAnswers e d1 sid rest
      in (ok # oks, d2))"

definition toast_submitted :: "bool \<Rightarrow> toast" where
  "toast_submitted forced =
     \<lparr> title = (if forced then ''Test Terminated'' else ''Test Submitted''),
       description = (if forced then ''Your test was terminated due to violations''
                      else ''Your answers have been submitted successfully''),
       variant = Some (if forced then ''destructive'' else ''default'') \<rparr>"

definition toast_submission_error :: toast where
  "toast_submission_error =
     \<lparr> title = ''Submission Error'',
       description = ''Failed to submit your test. Please try again.'',
       variant = Some ''destructive'' \<rparr>"

text \<open>
  \<open>submitTest\<close>: the value of \<open>await Promise.all(answerPromises)\<close> is dropped, then the
  status is written. The result is the returned boolean, the toast shown and the store.
\<close>

definition submitTest ::
  "env \<Rightarrow> db \<Rightarrow> string \<Rightarrow> (string \<times> string) list \<Rightarrow> bool \<Rightarrow> bool \<times> toast \<times> db" where
  "submitTest e d sid entries forced =
     (let (oks, d1) = submitAnswers e d sid entries
      in if fault e (UpdateSession sid) then (False, toast_submission_error, d1)
         else (True, toast_submitted forced,
               d1\<lparr>test_sessions :=
                    update_where (\<lambda>s. s_id s = sid)
                      (\<lambda>s. s\<lparr>status := (if forced then ''terminated'' else ''completed''),
                              submitted_at := Some (now e)\<rparr>)
                      (test_sessions d1)\<rparr>))"

section \<open>The grading workflow of useLiveEvaluation\<close>

definition toast_graded :: toast where
  "toast_graded =
     \<lparr> title = ''Success'', description = ''Answer graded successfully'', variant = None \<rparr>"

definition toast_grading_error :: toast where
  "toast_grading_error =
     \<lparr> title = ''Error'', description = ''Failed to grade answer'',
       variant = Some ''destructive'' \<rparr>"

text \<open>
  \<open>gradeAnswer\<close>. \<open>is_correct\<close> is computed from \<open>marks\<close> before the request is written;
  \<open>marks_awarded\<close> is what the JSON body carries.
\<close>

definition gradeAnswer ::
  "env \<Rightarrow> db \<Rightarrow> string \<Rightarrow> number \<Rightarrow> string \<Rightarrow> bool \<times> toast \<times> db" where
  "gradeAnswer e d answerId marks graderId =
     (if fault e (UpdateAnswer answerId) then (False, toast_grading_error, d)
      else (True, toast_graded,
            d\<lparr>answers :=
                 update_where (\<lambda>a. a_id a = answerId)
                   (\<lambda>a. a\<lparr>marks_awarded := json_number marks,
                           is_correct := Some (gt_zero marks),
                           graded_by := Some graderId,
                           graded_at := Some (now e)\<rparr>)
                   (answers d)\<rparr>))"

section \<open>The faculty transitions of useRealtimeTestSessions\<close>

text \<open>
  Modelled from the spec: the hook useRealtimeTestSessions, which defines
  \<open>terminateStudent\<close> and \<open>allowContinue\<close>, is not among the sources; only its caller
  LiveMonitoringDashboard is. The spec: "set status to \<open>terminated\<close> / back to
  \<open>in_progress\<close> respectively".
\<close>

definition terminateStudent :: "db \<Rightarrow> string \<Rightarrow> db" where
  "terminateStudent d sid =
     d\<lparr>test_sessions :=
         update_where (\<lambda>s. s_id s = sid) (\<lambda>s. s\<lparr>status := ''terminated''\<rparr>) (test_sessions d)\<rparr>"

text \<open>
  Modelled from the spec: \<open>allowContinue\<close> of the same missing hook.
\<close>

definition allowContinue :: "db \<Rightarrow> string \<Rightarrow> db" where
  "allowContinue d sid =
     d\<lparr>test_sessions :=
         update_where (\<lambda>s. s_id s = sid) (\<lambda>s. s\<lparr>status := ''in_progress''\<rparr>) (test_sessions d)\<rparr>"

section \<open>Concrete stores, events and environments\<close>

text \<open>
  An id generator that never returns an id of the table: a string longer than each of them.
\<close>

definition fresh_id :: "string list \<Rightarrow> string" where
  "fresh_id ids = replicate (Suc (foldr max (map length ids) 0)) CHR ''n''"

definition session_s1 :: test_session where
  "session_s1 =
     \<lparr> s_id = ''s1'', student_id = ''u1'', test_id = ''t1'', status = ''in_progress'',
       started_at = Some ''2025-11-30T16:00:00.000Z'', submitted_at = None,
       total_warnings = 0, tab_switch_count = 0, fullscreen_exit_count = 0 \<rparr>"

definition answer_a1 :: LiveAnswer where
  "answer_a1 =
     \<lparr> a_id = ''a1'', session_id = ''s1'', question_id = ''q1'', student_answer = Some ''41'',
       marks_awarded = None, is_correct = None, graded_by = None, graded_at = None \<rparr>"

definition patch_a1 :: answer_patch where
  "patch_a1 =
     \<lparr> new_a_id = Some ''a1'', new_session_id = None, new_question_id = None,
       new_student_answer = Some (Some ''42''), new_marks_awarded = None,
       new_is_correct = None, new_graded_by = None, new_graded_at = None \<rparr>"

definition patch_s1 :: session_patch where
  "patch_s1 =
     \<lparr> new_s_id = Some ''s1'', new_student_id = None, new_test_id = None,
       new_status = Some ''completed'', new_started_at = None,
       new_submitted_at = Some (Some ''2025-11-30T17:00:00.000Z''),
       new_total_warnings = None, new_tab_switch_count = None,
       new_fullscreen_exit_count = None \<rparr>"

definition fetch_s1 :: "string \<Rightarrow> (test_session \<times> profile option) option" where
  "fetch_s1 i =
     (if i = ''s1'' then Some (session_s1, Some \<lparr>full_name = ''Asha'', email = ''asha@example.org''\<rparr>)
      else None)"

definition row_a1 :: answer_row where
  "row_a1 =
     \<lparr> a_id = ''a1'', session_id = ''s1'', question_id = ''q1'', student_answer = Some ''41'',
       marks_awarded = None, is_correct = None, graded_by = None, graded_at = None,
       updated_at = None \<rparr>"

definition db_empty :: db where
  "db_empty = \<lparr> test_sessions = [], answers = [] \<rparr>"

definition db_s1 :: db where
  "db_s1 = \<lparr> test_sessions = [session_s1], answers = [row_a1] \<rparr>"

definition env_ok :: env where
  "env_ok =
     \<lparr> now = ''2025-11-30T16:37:32.000Z'',
       fault = (\<lambda>r. False),
       gen_id = fresh_id,
       session_defaults =
         \<lparr> s_id = [], student_id = [], test_id = [], status = ''not_started'',
           started_at = None, submitted_at = None,
           total_warnings = 0, tab_switch_count = 0, fullscreen_exit_count = 0 \<rparr>,
       answer_defaults =
         \<lparr> a_id = [], session_id = [], question_id = [], student_answer = None,
           marks_awarded = None, is_correct = None, graded_by = None, graded_at = None,
           updated_at = None \<rparr> \<rparr>"

text \<open>A second session of the pair (\<open>t1\<close>, \<open>u1\<close>), and a store that holds both.\<close>

definition session_s2 :: test_session where
  "session_s2 =
     \<lparr> s_id = ''s2'', student_id = ''u1'', test_id = ''t1'', status = ''active'',
       started_at = Some ''2025-11-30T16:05:00.000Z'', submitted_at = None,
       total_warnings = 0, tab_switch_count = 0, fullscreen_exit_count = 0 \<rparr>"

definition db_two_sessions :: db where
  "db_two_sessions = \<lparr> test_sessions = [session_s1, session_s2], answers = [] \<rparr>"

text \<open>The environment in which the store refuses the lookup of the session of that pair.\<close>

definition env_lookup_refused :: env where
  "env_lookup_refused = env_ok\<lparr>fault := (\<lambda>r. r = SelectSession ''t1'' ''u1'')\<rparr>"

text \<open>The same environment, except that the store refuses the insert of the answer to \<open>q2\<close>.\<close>

definition env_q2_fails :: env where
  "env_q2_fails = env_ok\<lparr>fault := (\<lambda>r. r = InsertAnswer ''s1'' ''q2'')\<rparr>"

lemmas example_defs =
  session_s1_def answer_a1_def patch_a1_def patch_s1_def fetch_s1_def row_a1_def
  db_empty_def db_s1_def env_ok_def env_q2_fails_def
  session_s2_def db_two_sessions_def env_lookup_refused_def

section \<open>Lemmas on the reconciler\<close>

lemma spread_spread: "spread (spread v p) p = spread v p"
  by (cases p) (simp_all add: spread_def)

lemma merge_session_idem: "merge_session (merge_session s p) p = merge_session s p"
  by (simp add: merge_session_def spread_spread)

lemma merge_answer_idem: "merge_answer (merge_answer a p) p = merge_answer a p"
  by (simp add: merge_answer_def spread_spread)

lemma merge_session_id: "new_s_id p = Some (s_id s) \<Longrightarrow> s_id (merge_session s p) = s_id s"
  by (simp add: merge_session_def spread_def)

lemma merge_answer_id: "new_a_id p = Some (a_id a) \<Longrightarrow> a_id (merge_answer a p) = a_id a"
  by (simp add: merge_answer_def spread_def)

lemma session_update_idem:
  "session_handler fetch (UPDATE p) (session_handler fetch (UPDATE p) st) =
   session_handler fetch (UPDATE p) st"
  by (induction st) (auto simp: session_handler_def merge_session_idem merge_session_id)

lemma answer_update_idem:
  "answer_handler (UPDATE p) (answer_handler (UPDATE p) st) = answer_handler (UPDATE p) st"
  by (induction st) (auto simp: answer_handler_def merge_answer_idem merge_answer_id)

lemma session_update_absent:
  "new_s_id p \<notin> Some ` s_id ` set st \<Longrightarrow> session_handler fetch (UPDATE p) st = st"
  by (induction st) (auto simp: session_handler_def)

lemma answer_update_absent:
  "new_a_id p \<notin> Some ` a_id ` set st \<Longrightarrow> answer_handler (UPDATE p) st = st"
  by (induction st) (auto simp: answer_handler_def)

section \<open>Lemmas on the stats aggregator\<close>



section \<open>Lemmas on the store and on submitAnswer\<close>

lemma single_Some: "single f rows = Some r \<longleftrightarrow> \<not> f \<and> rows = [r]"
  by (auto simp: single_def split: list.splits)

lemma map_key_update_where:
  "(\<And>r. key (change r) = key r) \<Longrightarrow> map key (update_where P change rows) = map key rows"
  by (simp add: update_where_def)

lemma set_update_where:
  "r \<in> set rows \<Longrightarrow> P r \<Longrightarrow> change r \<in> set (update_where P change rows)"
  by (auto simp: update_where_def)

lemma update_where_none: "\<forall>r \<in> set rows. \<not> P r \<Longrightarrow> update_where P change rows = rows"
  by (induction rows) (auto simp: update_where_def)

lemma update_where_cases:
  "r' \<in> set (update_where P change rows) \<Longrightarrow>
   (\<exists>r \<in> set rows. P r \<and> r' = change r) \<or> (r' \<in> set rows \<and> \<not> P r')"
  by (auto simp: update_where_def split: if_splits)

lemma filter_update_where_other:
  assumes "\<And>r. r \<in> set rows \<Longrightarrow> P r \<Longrightarrow> \<not> Q r \<and> \<not> Q (change r)"
  shows "filter Q (update_where P change rows) = filter Q rows"
  using assms by (induction rows) (auto simp: update_where_def)

lemma distinct_map_eq:
  "distinct (map key rows) \<Longrightarrow> a \<in> set rows \<Longrightarrow> b \<in> set rows \<Longrightarrow> key a = key b \<Longrightarrow> a = b"
  by (meson distinct_map inj_onD)

lemma length_le_foldr_max: "x \<in> set ids \<Longrightarrow> length x \<le> foldr max (map length ids) 0"
  by (induction ids) auto

lemma fresh_id_fresh: "fresh_id ids \<notin> set ids"
proof
  assume "fresh_id ids \<in> set ids"
  then have "length (fresh_id ids) \<le> foldr max (map length ids) 0"
    by (rule length_le_foldr_max)
  then show False by (simp add: fresh_id_def)
qed

lemmas run_defs =
  submitTest_def submitAnswer_def single_def answers_of_def update_where_def
  sessions_of_def getOrCreateSession_def gradeAnswer_def

lemma submitAnswer_writes:
  assumes "submitAnswer e d x = (True, d')"
  shows "\<exists>r \<in> set (answers_of d' (sessionId x) (questionId x)). student_answer r = Some (answer x)"
proof (cases "single (fault e (SelectAnswer (sessionId x) (questionId x))) (answers_of d (sessionId x) (questionId x))")
  case None
  with assms show ?thesis
    by (auto simp: submitAnswer_def answers_of_def split: if_splits)
next
  case (Some ex)
  then have "answers_of d (sessionId x) (questionId x) = [ex]" by (simp add: single_Some)
  then have "ex \<in> set (answers_of d (sessionId x) (questionId x))" by simp
  then have ex: "ex \<in> set (answers d)" "session_id ex = sessionId x" "question_id ex = questionId x"
    by (auto simp: answers_of_def)
  let ?ch = "\<lambda>a::answer_row. a\<lparr>student_answer := Some (answer x), updated_at := Some (now e)\<rparr>"
  from assms Some have d': "answers d' = update_where (\<lambda>a. a_id a = a_id ex) ?ch (answers d)"
    by (auto simp: submitAnswer_def split: if_splits)
  have "?ch ex \<in> set (answers d')"
    unfolding d' using ex(1) by (rule set_update_where) simp
  then show ?thesis using ex(2,3) by (auto simp: answers_of_def intro!: bexI[of _ "?ch ex"])
qed

lemma submitAnswer_other:
  assumes pk: "distinct (map a_id (answers d))"
    and ne: "(s, q) \<noteq> (sessionId x, questionId x)"
    and run: "submitAnswer e d x = (ok, d')"
  shows "answers_of d' s q = answers_of d s q"
proof (cases "single (fault e (SelectAnswer (sessionId x) (questionId x))) (answers_of d (sessionId x) (questionId x))")
  case None
  with run ne show ?thesis
    by (auto simp: submitAnswer_def answers_of_def split: if_splits)
next
  case (Some ex)
  then have "answers_of d (sessionId x) (questionId x) = [ex]" by (simp add: single_Some)
  then have "ex \<in> set (answers_of d (sessionId x) (questionId x))" by simp
  then have ex: "ex \<in> set (answers d)" "session_id ex = sessionId x" "question_id ex = questionId x"
    by (auto simp: answers_of_def)
  let ?ch = "\<lambda>a::answer_row. a\<lparr>student_answer := Some (answer x), updated_at := Some (now e)\<rparr>"
  show ?thesis
  proof (cases "fault e (UpdateAnswer (a_id ex))")
    case True
    with run Some show ?thesis by (simp add: submitAnswer_def)
  next
    case False
    with run Some have d': "answers d' = update_where (\<lambda>a. a_id a = a_id ex) ?ch (answers d)"
      by (auto simp: submitAnswer_def)
    have "filter (\<lambda>a. session_id a = s \<and> question_id a = q) (update_where (\<lambda>a. a_id a = a_id ex) ?ch (answers d))
        = filter (\<lambda>a. session_id a = s \<and> question_id a = q) (answers d)"
    proof (rule filter_update_where_other)
      fix r assume r: "r \<in> set (answers d)" "a_id r = a_id ex"
      then have "r = ex" using pk ex(1) by (metis distinct_map_eq)
      with ex ne show "\<not> (session_id r = s \<and> question_id r = q) \<and> \<not> (session_id (?ch r) = s \<and> question_id (?ch r) = q)"
        by auto
    qed
    then show ?thesis by (simp add: answers_of_def d')
  qed
qed

lemma submitAnswer_pk:
  assumes pk: "distinct (map a_id (answers d))"
    and fresh: "\<forall>ids. gen_id e ids \<notin> set ids"
    and run: "submitAnswer e d x = (ok, d')"
  shows "distinct (map a_id (answers d'))"
proof (cases "single (fault e (SelectAnswer (sessionId x) (questionId x))) (answers_of d (sessionId x) (questionId x))")
  case None
  from fresh have "gen_id e (map a_id (answers d)) \<notin> set (map a_id (answers d))" by blast
  with None run pk show ?thesis
    by (auto simp: submitAnswer_def split: if_splits)
next
  case (Some ex)
  with run pk show ?thesis
    by (auto simp: submitAnswer_def map_key_update_where split: if_splits)
qed

lemma submitAnswer_sessions:
  "submitAnswer e d x = (ok, d') \<Longrightarrow> test_sessions d' = test_sessions d"
  by (auto simp: submitAnswer_def split: if_splits option.splits)

lemma submitAnswers_sessions:
  "submitAnswers e d sid entries = (oks, d') \<Longrightarrow> test_sessions d' = test_sessions d"
proof (induction entries arbitrary: d oks d')
  case Nil then show ?case by simp
next
  case (Cons p entries)
  obtain q t where p: "p = (q, t)" by (cases p)
  obtain ok d1 where s1: "submitAnswer e d \<lparr>sessionId = sid, questionId = q, answer = t\<rparr> = (ok, d1)" by force
  obtain oks2 d2 where s2: "submitAnswers e d1 sid entries = (oks2, d2)" by force
  from Cons.prems p s1 s2 have "d' = d2" by simp
  with Cons.IH[OF s2] submitAnswer_sessions[OF s1] show ?case by simp
qed

lemma submitAnswers_other:
  assumes "distinct (map a_id (answers d))" "\<forall>ids. gen_id e ids \<notin> set ids"
    "q \<notin> fst ` set entries" "submitAnswers e d sid entries = (oks, d')"
  shows "answers_of d' sid q = answers_of d sid q"
  using assms
proof (induction entries arbitrary: d oks d')
  case Nil then show ?case by simp
next
  case (Cons p entries)
  obtain q0 t where p: "p = (q0, t)" by (cases p)
  obtain ok d1 where s1: "submitAnswer e d \<lparr>sessionId = sid, questionId = q0, answer = t\<rparr> = (ok, d1)" by force
  obtain oks2 d2 where s2: "submitAnswers e d1 sid entries = (oks2, d2)" by force
  from Cons.prems p s1 s2 have d': "d' = d2" by simp
  have pk1: "distinct (map a_id (answers d1))"
    using submitAnswer_pk[OF Cons.prems(1,2) s1] .
  have "q \<noteq> q0" "q \<notin> fst ` set entries" using Cons.prems(3) p by auto
  then have "answers_of d1 sid q = answers_of d sid q"
    using submitAnswer_other[OF Cons.prems(1) _ s1, of sid q] by simp
  moreover have "answers_of d2 sid q = answers_of d1 sid q"
    using Cons.IH[OF pk1 Cons.prems(2) \<open>q \<notin> fst ` set entries\<close> s2] .
  ultimately show ?case using d' by simp
qed

lemma submitAnswers_written:
  assumes "distinct (map a_id (answers d))" "\<forall>ids. gen_id e ids \<notin> set ids"
    "distinct (map fst entries)" "submitAnswers e d sid entries = (oks, d')"
    "\<forall>ok \<in> set oks. ok" "(q, t) \<in> set entries"
  shows "\<exists>r \<in> set (answers_of d' sid q). student_answer r = Some t"
  using assms
proof (induction entries arbitrary: d oks d')
  case Nil then show ?case by simp
next
  case (Cons p entries)
  obtain q0 t0 where p: "p = (q0, t0)" by (cases p)
  obtain ok d1 where s1: "submitAnswer e d \<lparr>sessionId = sid, questionId = q0, answer = t0\<rparr> = (ok, d1)" by force
  obtain oks2 d2 where s2: "submitAnswers e d1 sid entries = (oks2, d2)" by force
  from Cons.prems p s1 s2 have d': "d' = d2" and oks: "oks = ok # oks2" by simp_all
  have pk1: "distinct (map a_id (answers d1))"
    using submitAnswer_pk[OF Cons.prems(1,2) s1] .
  show ?case
  proof (cases "(q, t) = (q0, t0)")
    case True
    have "ok" using Cons.prems(5) oks by auto
    with s1 have "\<exists>r \<in> set (answers_of d1 sid q0). student_answer r = Some t0"
      using submitAnswer_writes[of e d "\<lparr>sessionId = sid, questionId = q0, answer = t0\<rparr>" d1] by simp
    moreover have "q0 \<notin> fst ` set entries" using Cons.prems(3) p by simp
    then have "answers_of d2 sid q0 = answers_of d1 sid q0"
      using submitAnswers_other[OF pk1 Cons.prems(2) _ s2] by simp
    ultimately show ?thesis using True d' by simp
  next
    case False
    with Cons.prems(6) p have "(q, t) \<in> set entries" by auto
    moreover have "distinct (map fst entries)" using Cons.prems(3) by simp
    moreover have "\<forall>ok \<in> set oks2. ok" using Cons.prems(5) oks by auto
    ultimately show ?thesis using Cons.IH[OF pk1 Cons.prems(2) _ s2] d' by simp
  qed
qed

lemma filter_update_where_same:
  assumes "\<And>r. Q (change r) = Q r"
  shows "filter Q (update_where P change rows) = update_where P change (filter Q rows)"
  using assms by (induction rows) (auto simp: update_where_def)

lemma single_None_short:
  "single False rows = None \<Longrightarrow> length rows \<le> 1 \<Longrightarrow> rows = []"
  by (cases rows) (auto simp: single_def split: list.splits)

lemma submitAnswer_upsert:
  assumes run: "submitAnswer e d x = (True, d')"
    and nf: "\<not> fault e (SelectAnswer (sessionId x) (questionId x))"
    and le: "length (answers_of d (sessionId x) (questionId x)) \<le> 1"
  shows "map student_answer (answers_of d' (sessionId x) (questionId x)) = [Some (answer x)]"
proof (cases "single False (answers_of d (sessionId x) (questionId x))")
  case None
  then have "answers_of d (sessionId x) (questionId x) = []" using le by (rule single_None_short)
  with run nf None show ?thesis
    by (auto simp: submitAnswer_def answers_of_def split: if_splits)
next
  case (Some ex)
  then have one: "answers_of d (sessionId x) (questionId x) = [ex]" by (simp add: single_Some)
  define ch where "ch = (\<lambda>a::answer_row. a\<lparr>student_answer := Some (answer x), updated_at := Some (now e)\<rparr>)"
  define Q where "Q = (\<lambda>a::answer_row. session_id a = sessionId x \<and> question_id a = questionId x)"
  define P where "P = (\<lambda>a::answer_row. a_id a = a_id ex)"
  from run nf Some have d': "answers d' = update_where P ch (answers d)"
    by (auto simp: submitAnswer_def ch_def P_def split: if_splits)
  have keep: "Q (ch r) = Q r" for r by (simp add: Q_def ch_def)
  have "filter Q (update_where P ch (answers d)) = update_where P ch (filter Q (answers d))"
    using keep by (rule filter_update_where_same)
  also have "filter Q (answers d) = [ex]" using one by (simp add: answers_of_def Q_def)
  also have "update_where P ch [ex] = [ch ex]" by (simp add: update_where_def P_def)
  finally have "answers_of d' (sessionId x) (questionId x) = [ch ex]"
    by (simp add: answers_of_def d' Q_def)
  then show ?thesis by (simp add: ch_def)
qed

lemma submitAnswers_upsert:
  assumes "distinct (map a_id (answers d))" "\<forall>ids. gen_id e ids \<notin> set ids"
    "distinct (map fst entries)" "submitAnswers e d sid entries = (oks, d')"
    "\<forall>ok \<in> set oks. ok" "(q, t) \<in> set entries"
    "\<not> fault e (SelectAnswer sid q)" "length (answers_of d sid q) \<le> 1"
  shows "map student_answer (answers_of d' sid q) = [Some t]"
  using assms
proof (induction entries arbitrary: d oks d')
  case Nil then show ?case by simp
next
  case (Cons p entries)
  obtain q0 t0 where p: "p = (q0, t0)" by (cases p)
  obtain ok d1 where s1: "submitAnswer e d \<lparr>sessionId = sid, questionId = q0, answer = t0\<rparr> = (ok, d1)" by force
  obtain oks2 d2 where s2: "submitAnswers e d1 sid entries = (oks2, d2)" by force
  from Cons.prems p s1 s2 have d': "d' = d2" and oks: "oks = ok # oks2" by simp_all
  have pk1: "distinct (map a_id (answers d1))"
    using submitAnswer_pk[OF Cons.prems(1,2) s1] .
  have ok: "ok" using Cons.prems(5) oks by auto
  show ?case
  proof (cases "q = q0")
    case True
    with Cons.prems(3,6) p have "t = t0" by (auto simp: image_iff)
    have "map student_answer (answers_of d1 sid q0) = [Some t0]"
      using submitAnswer_upsert [of e d "\<lparr>sessionId = sid, questionId = q0, answer = t0\<rparr>" d1]
        s1 ok Cons.prems(7,8) True by simp
    moreover have "q0 \<notin> fst ` set entries" using Cons.prems(3) p by simp
    then have "answers_of d2 sid q0 = answers_of d1 sid q0"
      using submitAnswers_other[OF pk1 Cons.prems(2) _ s2] by simp
    ultimately show ?thesis using True \<open>t = t0\<close> d' by simp
  next
    case False
    with Cons.prems(6) p have mem: "(q, t) \<in> set entries" by auto
    have dist: "distinct (map fst entries)" using Cons.prems(3) by simp
    have all: "\<forall>ok \<in> set oks2. ok" using Cons.prems(5) oks by auto
    have "answers_of d1 sid q = answers_of d sid q"
      using submitAnswer_other[OF Cons.prems(1) _ s1, of sid q] False by simp
    then have le1: "length (answers_of d1 sid q) \<le> 1" using Cons.prems(8) by simp
    show ?thesis
      using Cons.IH[OF pk1 Cons.prems(2) dist s2 all mem Cons.prems(7) le1] d' by simp
  qed
qed

section \<open>Arithmetic of the session counts\<close>



section \<open>The reconciler: replayed events\<close>

text \<open>
  Claim C1, as the handlers have it. Applying an UPDATE or a DELETE event twice to the
  session store or to the answer store gives the same store as applying it once. An INSERT
  is not idempotent: neither handler looks for the id in the store. The answer handler
  appends the event's row at every application; the session handler appends the session it
  reads back whenever that read returns data. So a replayed INSERT of an id that is already
  present adds a second record.
\<close>

theorem reconciler_replay:
  "session_handler fetch (UPDATE p) (session_handler fetch (UPDATE p) ss) =
     session_handler fetch (UPDATE p) ss
   \<and> session_handler fetch (DELETE i) (session_handler fetch (DELETE i) ss) =
     session_handler fetch (DELETE i) ss
   \<and> answer_handler (UPDATE q) (answer_handler (UPDATE q) as) = answer_handler (UPDATE q) as
   \<and> answer_handler (DELETE i) (answer_handler (DELETE i) as) = answer_handler (DELETE i) as
   \<and> answer_handler (INSERT a) (answer_handler (INSERT a) as) =
     answer_handler (INSERT a) as @ [a]
   \<and> session_handler fetch (INSERT n) (session_handler fetch (INSERT n) ss) =
     session_handler fetch (INSERT n) ss @
       (case fetch (s_id n) of None \<Rightarrow> [] | Some (data, profiles) \<Rightarrow> [with_student data profiles])"
proof (intro conjI)
  show "session_handler fetch (UPDATE p) (session_handler fetch (UPDATE p) ss) =
     session_handler fetch (UPDATE p) ss" by (rule session_update_idem)
  show "answer_handler (UPDATE q) (answer_handler (UPDATE q) as) = answer_handler (UPDATE q) as"
    by (rule answer_update_idem)
  show "session_handler fetch (DELETE i) (session_handler fetch (DELETE i) ss) =
     session_handler fetch (DELETE i) ss" by (simp add: session_handler_def)
  show "answer_handler (DELETE i) (answer_handler (DELETE i) as) = answer_handler (DELETE i) as"
    by (simp add: answer_handler_def)
  show "answer_handler (INSERT a) (answer_handler (INSERT a) as) =
     answer_handler (INSERT a) as @ [a]" by (simp add: answer_handler_def)
  show "session_handler fetch (INSERT n) (session_handler fetch (INSERT n) ss) =
     session_handler fetch (INSERT n) ss @
       (case fetch (s_id n) of None \<Rightarrow> [] | Some (data, profiles) \<Rightarrow> [with_student data profiles])"
    by (simp add: session_handler_def split: option.splits)
qed

text \<open>
  The statement of C1 at a store that holds the answer \<open>a1\<close>: the replayed UPDATE and the
  replayed DELETE change nothing more, the replayed INSERT leaves three records with the id
  \<open>a1\<close>, and two INSERT events for the session \<open>s1\<close> leave two records in an empty
  session store.
\<close>

theorem reconciler_replay_witness:
  "answer_handler (UPDATE patch_a1) (answer_handler (UPDATE patch_a1) [answer_a1]) =
     [answer_a1\<lparr>student_answer := Some ''42''\<rparr>]
   \<and> answer_handler (DELETE ''a1'') (answer_handler (DELETE ''a1'') [answer_a1]) = []
   \<and> answer_handler (INSERT answer_a1) (answer_handler (INSERT answer_a1) [answer_a1]) =
     [answer_a1, answer_a1, answer_a1]
   \<and> session_handler fetch_s1 (INSERT session_s1) (session_handler fetch_s1 (INSERT session_s1) []) =
     [with_student session_s1 (Some \<lparr>full_name = ''Asha'', email = ''asha@example.org''\<rparr>),
      with_student session_s1 (Some \<lparr>full_name = ''Asha'', email = ''asha@example.org''\<rparr>)]"
  using reconciler_replay [of fetch_s1 patch_s1 "[]" "''a1''" patch_a1 "[answer_a1]" answer_a1 session_s1]
  by (simp add: answer_handler_def session_handler_def merge_answer_def spread_def example_defs)

text \<open>
  Claim C1 as the spec words it ("replaying an INSERT for an id already present does not add
  a second record") fails: the answer store \<open>[a1]\<close> after one INSERT of \<open>a1\<close> has two
  records, after two it differs from that again; and the session store differs after one and
  after two INSERT events of \<open>s1\<close>.
\<close>

theorem insert_replay_counterexample:
  "answer_handler (INSERT answer_a1) (answer_handler (INSERT answer_a1) [answer_a1]) \<noteq>
   answer_handler (INSERT answer_a1) [answer_a1]
   \<and> length (answer_handler (INSERT answer_a1) [answer_a1]) = 2
   \<and> session_handler fetch_s1 (INSERT session_s1) (session_handler fetch_s1 (INSERT session_s1) []) \<noteq>
     session_handler fetch_s1 (INSERT session_s1) []"
  by (simp add: answer_handler_def session_handler_def example_defs)

section \<open>The reconciler: an UPDATE before its INSERT\<close>

text \<open>
  Claim C2, as the handlers have it. An UPDATE event whose id is in no record of the store
  leaves the store as it is: \<open>prev.map\<close> changes matching records only and nothing is
  inserted. So in the answer store an UPDATE followed by its INSERT ends with the row of
  the INSERT event appended unchanged, while the INSERT followed by the UPDATE ends with
  that row merged with the fields of the UPDATE.
\<close>

theorem update_of_absent_id:
  "(new_s_id p \<notin> Some ` s_id ` set ss \<longrightarrow> session_handler fetch (UPDATE p) ss = ss)
   \<and> (new_a_id q \<notin> Some ` a_id ` set as \<longrightarrow>
        answer_handler (UPDATE q) as = as
        \<and> answer_handler (INSERT a) (answer_handler (UPDATE q) as) = as @ [a]
        \<and> (new_a_id q = Some (a_id a) \<longrightarrow>
             answer_handler (UPDATE q) (answer_handler (INSERT a) as) = as @ [merge_answer a q]))"
proof (intro conjI impI)
  assume "new_s_id p \<notin> Some ` s_id ` set ss"
  then show "session_handler fetch (UPDATE p) ss = ss" by (rule session_update_absent)
next
  assume "new_a_id q \<notin> Some ` a_id ` set as"
  then show "answer_handler (UPDATE q) as = as" by (rule answer_update_absent)
next
  assume "new_a_id q \<notin> Some ` a_id ` set as"
  then have "answer_handler (UPDATE q) as = as" by (rule answer_update_absent)
  then show "answer_handler (INSERT a) (answer_handler (UPDATE q) as) = as @ [a]"
    by (simp add: answer_handler_def)
next
  assume abs: "new_a_id q \<notin> Some ` a_id ` set as" and m: "new_a_id q = Some (a_id a)"
  have "answer_handler (UPDATE q) (as @ [a]) = answer_handler (UPDATE q) as @ answer_handler (UPDATE q) [a]"
    by (simp add: answer_handler_def)
  also have "answer_handler (UPDATE q) as = as" using abs by (rule answer_update_absent)
  also have "answer_handler (UPDATE q) [a] = [merge_answer a q]" using m by (simp add: answer_handler_def)
  finally show "answer_handler (UPDATE q) (answer_handler (INSERT a) as) = as @ [merge_answer a q]"
    by (simp add: answer_handler_def)
qed

text \<open>
  The statement of C2 at the empty stores, with the UPDATE \<open>patch_a1\<close> (answer text
  \<open>42\<close>) and the INSERT of \<open>answer_a1\<close> (answer text \<open>41\<close>).
\<close>

theorem update_of_absent_id_witness:
  "new_s_id patch_s1 \<notin> Some ` s_id ` set []
   \<and> session_handler fetch_s1 (UPDATE patch_s1) [] = []
   \<and> new_a_id patch_a1 \<notin> Some ` a_id ` set []
   \<and> new_a_id patch_a1 = Some (a_id answer_a1)
   \<and> answer_handler (UPDATE patch_a1) [] = []
   \<and> answer_handler (INSERT answer_a1) (answer_handler (UPDATE patch_a1) []) = [answer_a1]
   \<and> answer_handler (UPDATE patch_a1) (answer_handler (INSERT answer_a1) []) =
       [merge_answer answer_a1 patch_a1]"
  using update_of_absent_id [of patch_s1 "[]" fetch_s1 patch_a1 "[]" answer_a1]
  by (simp add: answer_handler_def session_handler_def merge_answer_def spread_def example_defs)

text \<open>
  Claim C2 as the spec words it fails: on the empty answer store the UPDATE of \<open>a1\<close>
  inserts nothing, and UPDATE then INSERT ends in another store than INSERT then UPDATE.
\<close>

theorem update_before_insert_counterexample:
  "new_a_id patch_a1 \<notin> Some ` a_id ` set []
   \<and> answer_handler (UPDATE patch_a1) [] = []
   \<and> answer_handler (INSERT answer_a1) (answer_handler (UPDATE patch_a1) []) \<noteq>
     answer_handler (UPDATE patch_a1) (answer_handler (INSERT answer_a1) [])"
  by (simp add: answer_handler_def merge_answer_def spread_def patch_a1_def answer_a1_def)

section \<open>submitTest\<close>

text \<open>
  Claim C3 at a concrete call. The store holds the session \<open>s1\<close> and the answer to \<open>q1\<close>;
  it refuses the insert of the answer to \<open>q2\<close> and accepts every other request.
  \<open>submitTest("s1", {q2: "7", q1: "42"}, false)\<close>: \<open>submitAnswer\<close> returns false for
  \<open>q2\<close> and true for \<open>q1\<close>, whose write is made although the one before it failed; yet
  \<open>submitTest\<close> returns true, shows the toast "Your answers have been submitted
  successfully" and marks the session completed, while no answer to \<open>q2\<close> is stored.
\<close>

theorem submitTest_hides_answer_failure:
  "fst (submitAnswers env_q2_fails db_s1 ''s1'' [(''q2'', ''7''), (''q1'', ''42'')]) = [False, True]
   \<and> fst (submitTest env_q2_fails db_s1 ''s1'' [(''q2'', ''7''), (''q1'', ''42'')] False) = True
   \<and> fst (snd (submitTest env_q2_fails db_s1 ''s1'' [(''q2'', ''7''), (''q1'', ''42'')] False)) =
       toast_submitted False
   \<and> answers_of (snd (snd (submitTest env_q2_fails db_s1 ''s1'' [(''q2'', ''7''), (''q1'', ''42'')] False)))
         ''s1'' ''q2'' = []
   \<and> map student_answer
         (answers_of (snd (snd (submitTest env_q2_fails db_s1 ''s1'' [(''q2'', ''7''), (''q1'', ''42'')] False)))
            ''s1'' ''q1'') = [Some ''42'']
   \<and> map status
         (test_sessions (snd (snd (submitTest env_q2_fails db_s1 ''s1'' [(''q2'', ''7''), (''q1'', ''42'')] False))))
       = [''completed'']"
  by (simp add: run_defs example_defs)

text \<open>
  Claim C6. Let the entries of \<open>answers\<close> have distinct keys, the ids of the table
  \<open>answers\<close> be distinct (it is the primary key) and the store give new rows ids that are
  not in the table. If every \<open>submitAnswer\<close> of the answer phase returns true and the
  status write is not refused, then \<open>submitTest\<close> returns true; the table of sessions has
  the same ids as before, and every session with the id \<open>sessionId\<close> has the status
  \<open>terminated\<close> when \<open>forced\<close> and \<open>completed\<close> otherwise, and \<open>submitted_at\<close> set to
  the clock reading; for every entry (question, text) the store holds an answer of that
  session and question with that text; and when the lookup of the entry is not refused and
  the store held at most one answer for the pair, it now holds exactly one, with that text.
\<close>

theorem submitTest_success:
  assumes "distinct (map fst entries)"
    and "distinct (map a_id (answers d))"
    and "\<forall>ids. gen_id e ids \<notin> set ids"
    and "\<forall>ok \<in> set (fst (submitAnswers e d sid entries)). ok"
    and "\<not> fault e (UpdateSession sid)"
  shows "fst (submitTest e d sid entries forced)
    \<and> map s_id (test_sessions (snd (snd (submitTest e d sid entries forced)))) =
        map s_id (test_sessions d)
    \<and> (\<forall>s \<in> set (test_sessions (snd (snd (submitTest e d sid entries forced)))).
          s_id s = sid \<longrightarrow>
          status s = (if forced then ''terminated'' else ''completed'')
          \<and> submitted_at s = Some (now e))
    \<and> (\<forall>(qid, txt) \<in> set entries.
          \<exists>r \<in> set (answers_of (snd (snd (submitTest e d sid entries forced))) sid qid).
            student_answer r = Some txt)
    \<and> (\<forall>(qid, txt) \<in> set entries.
          \<not> fault e (SelectAnswer sid qid) \<and> length (answers_of d sid qid) \<le> 1 \<longrightarrow>
          map student_answer (answers_of (snd (snd (submitTest e d sid entries forced))) sid qid) =
            [Some txt])"
proof -
  obtain oks d1 where run: "submitAnswers e d sid entries = (oks, d1)" by force
  define st where "st = (if forced then ''terminated'' else ''completed'')"
  define ch where "ch = (\<lambda>s::test_session. s\<lparr>status := st, submitted_at := Some (now e)\<rparr>)"
  define d' where "d' = d1\<lparr>test_sessions := update_where (\<lambda>s. s_id s = sid) ch (test_sessions d1)\<rparr>"
  have res: "submitTest e d sid entries forced = (True, toast_submitted forced, d')"
    using run assms(5) by (simp add: submitTest_def d'_def ch_def st_def)
  have ts: "test_sessions d1 = test_sessions d" using run by (rule submitAnswers_sessions)
  have key: "s_id (ch r) = s_id r" for r by (simp add: ch_def)
  have ids: "map s_id (test_sessions d') = map s_id (test_sessions d)"
    using map_key_update_where [of s_id ch "\<lambda>s. s_id s = sid" "test_sessions d1", OF key]
    by (simp add: d'_def ts)
  have upd: "status s = st \<and> submitted_at s = Some (now e)"
    if "s \<in> set (test_sessions d')" "s_id s = sid" for s
  proof -
    from that(1) have "s \<in> set (update_where (\<lambda>s. s_id s = sid) ch (test_sessions d1))"
      by (simp add: d'_def)
    then have "(\<exists>r \<in> set (test_sessions d1). s_id r = sid \<and> s = ch r)
        \<or> (s \<in> set (test_sessions d1) \<and> s_id s \<noteq> sid)"
      using update_where_cases [of s "\<lambda>s. s_id s = sid" ch "test_sessions d1"] by simp
    with that(2) obtain r where "s = ch r" by auto
    then show ?thesis by (simp add: ch_def)
  qed
  have all: "\<forall>ok \<in> set oks. ok" using assms(4) run by simp
  have same: "answers_of d' sid qid = answers_of d1 sid qid" for qid
    by (simp add: answers_of_def d'_def)
  have ans: "\<exists>r \<in> set (answers_of d' sid qid). student_answer r = Some tx"
    if "(qid, tx) \<in> set entries" for qid tx
  proof -
    have "\<exists>r \<in> set (answers_of d1 sid qid). student_answer r = Some tx"
      using assms(2) assms(3) assms(1) run all that by (rule submitAnswers_written)
    then show ?thesis by (simp only: same)
  qed
  have ups: "map student_answer (answers_of d' sid qid) = [Some tx]"
    if "(qid, tx) \<in> set entries" "\<not> fault e (SelectAnswer sid qid)"
      "length (answers_of d sid qid) \<le> 1" for qid tx
  proof -
    have "map student_answer (answers_of d1 sid qid) = [Some tx]"
      using assms(2) assms(3) assms(1) run all that by (rule submitAnswers_upsert)
    then show ?thesis by (simp only: same)
  qed
  have "fst (submitTest e d sid entries forced)" by (simp add: res)
  moreover have "map s_id (test_sessions (snd (snd (submitTest e d sid entries forced)))) =
        map s_id (test_sessions d)" by (simp add: res ids)
  moreover have "\<forall>s \<in> set (test_sessions (snd (snd (submitTest e d sid entries forced)))).
          s_id s = sid \<longrightarrow>
          status s = (if forced then ''terminated'' else ''completed'')
          \<and> submitted_at s = Some (now e)"
    using upd unfolding st_def by (simp add: res)
  moreover have "\<forall>(qid, txt) \<in> set entries.
          \<exists>r \<in> set (answers_of (snd (snd (submitTest e d sid entries forced))) sid qid).
            student_answer r = Some txt"
    using ans by (auto simp: res)
  moreover have "\<forall>(qid, txt) \<in> set entries.
          \<not> fault e (SelectAnswer sid qid) \<and> length (answers_of d sid qid) \<le> 1 \<longrightarrow>
          map student_answer (answers_of (snd (snd (submitTest e d sid entries forced))) sid qid) =
            [Some txt]"
    using ups by (auto simp: res)
  ultimately show ?thesis by (intro conjI)
qed

text \<open>
  The statement of C6 at \<open>submitTest("s1", {q1: "42", q2: "7"}, false)\<close> on the store with
  the session \<open>s1\<close> and an answer \<open>41\<close> to \<open>q1\<close>: the answer to \<open>q1\<close> is updated, the
  answer to \<open>q2\<close> is inserted.
\<close>

theorem submitTest_success_witness:
  "distinct (map fst [(''q1'', ''42''), (''q2'', ''7'')])
   \<and> distinct (map a_id (answers db_s1))
   \<and> (\<forall>ids. gen_id env_ok ids \<notin> set ids)
   \<and> fst (submitAnswers env_ok db_s1 ''s1'' [(''q1'', ''42''), (''q2'', ''7'')]) = [True, True]
   \<and> \<not> fault env_ok (UpdateSession ''s1'')
   \<and> \<not> fault env_ok (SelectAnswer ''s1'' ''q1'') \<and> length (answers_of db_s1 ''s1'' ''q1'') \<le> 1
   \<and> \<not> fault env_ok (SelectAnswer ''s1'' ''q2'') \<and> length (answers_of db_s1 ''s1'' ''q2'') \<le> 1
   \<and> fst (submitTest env_ok db_s1 ''s1'' [(''q1'', ''42''), (''q2'', ''7'')] False)
   \<and> map s_id (test_sessions (snd (snd (submitTest env_ok db_s1 ''s1'' [(''q1'', ''42''), (''q2'', ''7'')] False))))
      = [''s1'']
   \<and> map status (test_sessions (snd (snd (submitTest env_ok db_s1 ''s1'' [(''q1'', ''42''), (''q2'', ''7'')] False))))
      = [''completed'']
   \<and> map submitted_at (test_sessions (snd (snd (submitTest env_ok db_s1 ''s1'' [(''q1'', ''42''), (''q2'', ''7'')] False))))
      = [Some (now env_ok)]
   \<and> map student_answer
        (answers_of (snd (snd (submitTest env_ok db_s1 ''s1'' [(''q1'', ''42''), (''q2'', ''7'')] False))) ''s1'' ''q1'')
      = [Some ''42'']
   \<and> map student_answer
        (answers_of (snd (snd (submitTest env_ok db_s1 ''s1'' [(''q1'', ''42''), (''q2'', ''7'')] False))) ''s1'' ''q2'')
      = [Some ''7'']"
proof -
  have h1: "distinct (map fst [(''q1'', ''42''), (''q2'', ''7'')])" by simp
  have h2: "distinct (map a_id (answers db_s1))" by (simp add: example_defs)
  have h3: "\<forall>ids. gen_id env_ok ids \<notin> set ids" by (simp add: env_ok_def fresh_id_fresh)
  have oks: "fst (submitAnswers env_ok db_s1 ''s1'' [(''q1'', ''42''), (''q2'', ''7'')]) = [True, True]"
    by (simp add: run_defs example_defs)
  then have h4: "\<forall>ok \<in> set (fst (submitAnswers env_ok db_s1 ''s1'' [(''q1'', ''42''), (''q2'', ''7'')])). ok"
    by simp
  have h5: "\<not> fault env_ok (UpdateSession ''s1'')" by (simp add: env_ok_def)
  have h6: "\<not> fault env_ok (SelectAnswer ''s1'' ''q1'') \<and> length (answers_of db_s1 ''s1'' ''q1'') \<le> 1"
    by (simp add: answers_of_def example_defs)
  have h7: "\<not> fault env_ok (SelectAnswer ''s1'' ''q2'') \<and> length (answers_of db_s1 ''s1'' ''q2'') \<le> 1"
    by (simp add: answers_of_def example_defs)
  have sess: "test_sessions (snd (snd (submitTest env_ok db_s1 ''s1'' [(''q1'', ''42''), (''q2'', ''7'')] False)))
      = [session_s1\<lparr>status := ''completed'', submitted_at := Some (now env_ok)\<rparr>]"
    by (simp add: run_defs example_defs)
  from submitTest_success [OF h1 h2 h3 h4 h5, of False] h1 h2 h3 oks h5 h6 h7
  show ?thesis by (simp add: sess session_s1_def)
qed

section \<open>gradeAnswer\<close>

text \<open>
  Claim C4. Let \<open>marks\<close> be a finite number (the precondition of the operation). If
  \<open>gradeAnswer(answerId, marks, graderId)\<close> returns true, then the table of answers has
  the same ids as before; every answer with the id \<open>answerId\<close> has
  \<open>marks_awarded = marks\<close>, \<open>is_correct = (marks > 0)\<close>, \<open>graded_by = graderId\<close> and
  \<open>graded_at\<close> equal to the clock reading, and is an answer of the old table in which
  these four fields, and no other, were written; every other answer is as it was. With
  \<open>marks = 0\<close> the field \<open>is_correct\<close> is false, with \<open>marks = 5\<close> it is true.
\<close>

theorem gradeAnswer_success:
  assumes "fst (gradeAnswer e d answerId (Finite m) graderId)"
  shows "map a_id (answers (snd (snd (gradeAnswer e d answerId (Finite m) graderId)))) =
           map a_id (answers d)
    \<and> (\<forall>r \<in> set (answers (snd (snd (gradeAnswer e d answerId (Finite m) graderId)))).
          a_id r = answerId \<longrightarrow>
            marks_awarded r = Some (Finite m) \<and> is_correct r = Some (0 < m)
            \<and> graded_by r = Some graderId \<and> graded_at r = Some (now e)
            \<and> (\<exists>r0 \<in> set (answers d).
                  r = r0\<lparr>marks_awarded := Some (Finite m), is_correct := Some (0 < m),
                         graded_by := Some graderId, graded_at := Some (now e)\<rparr>))
    \<and> (\<forall>r \<in> set (answers (snd (snd (gradeAnswer e d answerId (Finite m) graderId)))).
          a_id r \<noteq> answerId \<longrightarrow> r \<in> set (answers d))
    \<and> (m = 0 \<longrightarrow>
          (\<forall>r \<in> set (answers (snd (snd (gradeAnswer e d answerId (Finite m) graderId)))).
             a_id r = answerId \<longrightarrow> is_correct r = Some False))
    \<and> (m = 5 \<longrightarrow>
          (\<forall>r \<in> set (answers (snd (snd (gradeAnswer e d answerId (Finite m) graderId)))).
             a_id r = answerId \<longrightarrow> is_correct r = Some True))"
proof -
  define ch where "ch = (\<lambda>a::answer_row. a\<lparr>marks_awarded := Some (Finite m),
                           is_correct := Some (0 < m),
                           graded_by := Some graderId,
                           graded_at := Some (now e)\<rparr>)"
  define rows where "rows = update_where (\<lambda>a. a_id a = answerId) ch (answers d)"
  from assms have nf: "\<not> fault e (UpdateAnswer answerId)"
    by (auto simp: gradeAnswer_def split: if_splits)
  then have res: "answers (snd (snd (gradeAnswer e d answerId (Finite m) graderId))) = rows"
    by (simp add: gradeAnswer_def rows_def ch_def)
  have key: "a_id (ch r) = a_id r" for r by (simp add: ch_def)
  have ids: "map a_id rows = map a_id (answers d)"
    unfolding rows_def
    using map_key_update_where [of a_id ch "\<lambda>a. a_id a = answerId" "answers d", OF key] .
  have split: "(\<exists>r \<in> set (answers d). a_id r = answerId \<and> r' = ch r)
        \<or> (r' \<in> set (answers d) \<and> a_id r' \<noteq> answerId)" if "r' \<in> set rows" for r'
    using that update_where_cases [of r' "\<lambda>a. a_id a = answerId" ch "answers d"]
    by (simp add: rows_def)
  have graded: "marks_awarded r = Some (Finite m) \<and> is_correct r = Some (0 < m)
            \<and> graded_by r = Some graderId \<and> graded_at r = Some (now e)
            \<and> (\<exists>r0 \<in> set (answers d). r = ch r0)"
    if "r \<in> set rows" "a_id r = answerId" for r
  proof -
    from split [OF that(1)] that(2) obtain r0 where r0: "r0 \<in> set (answers d)" "r = ch r0"
      by auto
    have "marks_awarded (ch r0) = Some (Finite m) \<and> is_correct (ch r0) = Some (0 < m)
            \<and> graded_by (ch r0) = Some graderId \<and> graded_at (ch r0) = Some (now e)"
      by (simp add: ch_def)
    with r0 show ?thesis by blast
  qed
  have others: "r \<in> set (answers d)" if "r \<in> set rows" "a_id r \<noteq> answerId" for r
    using split [OF that(1)] that(2) key by auto
  have c1: "map a_id (answers (snd (snd (gradeAnswer e d answerId (Finite m) graderId)))) =
           map a_id (answers d)"
    by (simp only: res ids)
  have c2: "\<forall>r \<in> set (answers (snd (snd (gradeAnswer e d answerId (Finite m) graderId)))).
          a_id r = answerId \<longrightarrow>
            marks_awarded r = Some (Finite m) \<and> is_correct r = Some (0 < m)
            \<and> graded_by r = Some graderId \<and> graded_at r = Some (now e)
            \<and> (\<exists>r0 \<in> set (answers d).
                  r = r0\<lparr>marks_awarded := Some (Finite m), is_correct := Some (0 < m),
                         graded_by := Some graderId, graded_at := Some (now e)\<rparr>)"
    unfolding res using graded unfolding ch_def by blast
  have c3: "\<forall>r \<in> set (answers (snd (snd (gradeAnswer e d answerId (Finite m) graderId)))).
          a_id r \<noteq> answerId \<longrightarrow> r \<in> set (answers d)"
    unfolding res using others by blast
  have c4: "m = 0 \<longrightarrow>
          (\<forall>r \<in> set (answers (snd (snd (gradeAnswer e d answerId (Finite m) graderId)))).
             a_id r = answerId \<longrightarrow> is_correct r = Some False)"
    using c2 by auto
  have c5: "m = 5 \<longrightarrow>
          (\<forall>r \<in> set (answers (snd (snd (gradeAnswer e d answerId (Finite m) graderId)))).
             a_id r = answerId \<longrightarrow> is_correct r = Some True)"
    using c2 by auto
  from c1 c2 c3 c4 c5 show ?thesis by (intro conjI)
qed

text \<open>
  The statement of C4 at the answer \<open>a1\<close>, graded with 5 marks and with 0 marks by \<open>f1\<close>.
\<close>

theorem gradeAnswer_success_witness:
  "fst (gradeAnswer env_ok db_s1 ''a1'' (Finite 5) ''f1'')
   \<and> fst (gradeAnswer env_ok db_s1 ''a1'' (Finite 0) ''f1'')
   \<and> answers (snd (snd (gradeAnswer env_ok db_s1 ''a1'' (Finite 5) ''f1''))) =
       [row_a1\<lparr>marks_awarded := Some (Finite 5), is_correct := Some True,
               graded_by := Some ''f1'', graded_at := Some (now env_ok)\<rparr>]
   \<and> map a_id (answers (snd (snd (gradeAnswer env_ok db_s1 ''a1'' (Finite 5) ''f1'')))) = [''a1'']
   \<and> map marks_awarded (answers (snd (snd (gradeAnswer env_ok db_s1 ''a1'' (Finite 5) ''f1'')))) =
       [Some (Finite 5)]
   \<and> map is_correct (answers (snd (snd (gradeAnswer env_ok db_s1 ''a1'' (Finite 5) ''f1'')))) =
       [Some True]
   \<and> map graded_by (answers (snd (snd (gradeAnswer env_ok db_s1 ''a1'' (Finite 5) ''f1'')))) =
       [Some ''f1'']
   \<and> map graded_at (answers (snd (snd (gradeAnswer env_ok db_s1 ''a1'' (Finite 5) ''f1'')))) =
       [Some (now env_ok)]
   \<and> map is_correct (answers (snd (snd (gradeAnswer env_ok db_s1 ''a1'' (Finite 0) ''f1'')))) =
       [Some False]"
proof -
  have h5: "fst (gradeAnswer env_ok db_s1 ''a1'' (Finite 5) ''f1'')"
    by (simp add: gradeAnswer_def env_ok_def)
  have h0: "fst (gradeAnswer env_ok db_s1 ''a1'' (Finite 0) ''f1'')"
    by (simp add: gradeAnswer_def env_ok_def)
  have rows5: "answers (snd (snd (gradeAnswer env_ok db_s1 ''a1'' (Finite 5) ''f1''))) =
      [row_a1\<lparr>marks_awarded := Some (Finite 5), is_correct := Some True,
               graded_by := Some ''f1'', graded_at := Some (now env_ok)\<rparr>]"
    by (simp add: gradeAnswer_def update_where_def example_defs)
  have rows0: "answers (snd (snd (gradeAnswer env_ok db_s1 ''a1'' (Finite 0) ''f1''))) =
      [row_a1\<lparr>marks_awarded := Some (Finite 0), is_correct := Some False,
               graded_by := Some ''f1'', graded_at := Some (now env_ok)\<rparr>]"
    by (simp add: gradeAnswer_def update_where_def example_defs)
  from gradeAnswer_success [OF h5] gradeAnswer_success [OF h0] h5 h0
  show ?thesis by (simp add: rows5 rows0 row_a1_def)
qed

text \<open>
  Claim C5, as \<open>gradeAnswer\<close> has it. When no answer has the id \<open>answerId\<close>, the store is
  left unchanged, and the result is false exactly when the store refuses the request: an
  update that matches no row is not an error, and \<open>gradeAnswer\<close> does not look the answer
  up, so it returns true and shows the success toast.
\<close>

theorem gradeAnswer_missing_answer:
  assumes "answerId \<notin> a_id ` set (answers d)"
  shows "gradeAnswer e d answerId marks graderId =
     (if fault e (UpdateAnswer answerId) then (False, toast_grading_error, d)
      else (True, toast_graded, d))"
proof -
  have "\<forall>r \<in> set (answers d). \<not> a_id r = answerId" using assms by auto
  then have "update_where (\<lambda>a. a_id a = answerId)
       (\<lambda>a. a\<lparr>marks_awarded := json_number marks, is_correct := Some (gt_zero marks),
               graded_by := Some graderId, graded_at := Some (now e)\<rparr>) (answers d) = answers d"
    by (rule update_where_none)
  then show ?thesis by (simp add: gradeAnswer_def)
qed

text \<open>
  The statement of C5 at the id \<open>a9\<close>, which no answer of the store has.
\<close>

theorem gradeAnswer_missing_answer_witness:
  "''a9'' \<notin> a_id ` set (answers db_s1)
   \<and> gradeAnswer env_ok db_s1 ''a9'' (Finite 5) ''f1'' = (True, toast_graded, db_s1)"
  using gradeAnswer_missing_answer [of "''a9''" db_s1 env_ok "Finite 5" "''f1''"]
  by (simp add: example_defs)

text \<open>
  Claim C5 as the spec words it ("reported as failure") fails: grading the missing answer
  \<open>a9\<close> does not return false.
\<close>

theorem gradeAnswer_missing_counterexample:
  "''a9'' \<notin> a_id ` set (answers db_s1)
   \<and> fst (gradeAnswer env_ok db_s1 ''a9'' (Finite 5) ''f1'') \<noteq> False"
  by (simp add: gradeAnswer_def example_defs)

section \<open>getOrCreateSession\<close>

text \<open>
  Claim C7, as \<open>getOrCreateSession\<close> has it. Let the store answer the lookup. If exactly
  one session of the table has the pair (testId, studentId), the call returns that session
  and leaves the store unchanged. If none has it and the store accepts the insert, the call
  returns a new session of the pair with \<open>status = active\<close> and \<open>started_at\<close> equal to the
  clock reading, the store is the old one with that session appended, and the same call on
  the new store returns the same session and leaves the store unchanged. If several sessions
  have the pair, \<open>.single()\<close> has no data, and the call (when the store accepts the insert)
  appends a further session of the pair.
\<close>

theorem getOrCreateSession_answered_lookup:
  assumes "\<not> fault e (SelectSession testId studentId)"
  shows "(filter (\<lambda>s. test_id s = testId \<and> student_id s = studentId) (test_sessions d) = [x] \<longrightarrow>
            getOrCreateSession e d testId studentId = (Inr x, d))
    \<and> (filter (\<lambda>s. test_id s = testId \<and> student_id s = studentId) (test_sessions d) = []
        \<and> \<not> fault e (InsertSession testId studentId) \<longrightarrow>
          (\<exists>n. getOrCreateSession e d testId studentId =
                  (Inr n, d\<lparr>test_sessions := test_sessions d @ [n]\<rparr>)
             \<and> test_id n = testId \<and> student_id n = studentId
             \<and> status n = ''active'' \<and> started_at n = Some (now e)
             \<and> getOrCreateSession e (d\<lparr>test_sessions := test_sessions d @ [n]\<rparr>) testId studentId =
                  (Inr n, d\<lparr>test_sessions := test_sessions d @ [n]\<rparr>)))
    \<and> (1 < length (filter (\<lambda>s. test_id s = testId \<and> student_id s = studentId) (test_sessions d))
        \<and> \<not> fault e (InsertSession testId studentId) \<longrightarrow>
          (\<exists>n. getOrCreateSession e d testId studentId =
                  (Inr n, d\<lparr>test_sessions := test_sessions d @ [n]\<rparr>)
             \<and> test_id n = testId \<and> student_id n = studentId
             \<and> status n = ''active'' \<and> started_at n = Some (now e)))"
proof -
  define n where "n = (session_defaults e)
                  \<lparr> s_id := gen_id e (map s_id (test_sessions d)),
                    test_id := testId,
                    student_id := studentId,
                    status := ''active'',
                    started_at := Some (now e) \<rparr>"
  define d' where "d' = d\<lparr>test_sessions := test_sessions d @ [n]\<rparr>"
  have fields: "test_id n = testId" "student_id n = studentId" "status n = ''active''"
      "started_at n = Some (now e)"
    by (simp_all add: n_def)
  have created: "getOrCreateSession e d testId studentId = (Inr n, d')"
    if "single False (sessions_of d testId studentId) = None"
      "\<not> fault e (InsertSession testId studentId)"
    using that assms by (simp add: getOrCreateSession_def n_def d'_def Let_def)
  have one: "getOrCreateSession e d testId studentId = (Inr x, d)"
    if "filter (\<lambda>s. test_id s = testId \<and> student_id s = studentId) (test_sessions d) = [x]"
    using that assms by (simp add: getOrCreateSession_def single_def sessions_of_def)
  have none: "\<exists>n. getOrCreateSession e d testId studentId =
                  (Inr n, d\<lparr>test_sessions := test_sessions d @ [n]\<rparr>)
             \<and> test_id n = testId \<and> student_id n = studentId
             \<and> status n = ''active'' \<and> started_at n = Some (now e)
             \<and> getOrCreateSession e (d\<lparr>test_sessions := test_sessions d @ [n]\<rparr>) testId studentId =
                  (Inr n, d\<lparr>test_sessions := test_sessions d @ [n]\<rparr>)"
    if a: "filter (\<lambda>s. test_id s = testId \<and> student_id s = studentId) (test_sessions d) = []
        \<and> \<not> fault e (InsertSession testId studentId)"
  proof -
    from a have "single False (sessions_of d testId studentId) = None"
      by (simp add: single_def sessions_of_def)
    with a have first: "getOrCreateSession e d testId studentId = (Inr n, d')"
      by (simp add: created)
    have "sessions_of d' testId studentId = sessions_of d testId studentId @ [n]"
      by (simp add: sessions_of_def d'_def fields)
    then have "sessions_of d' testId studentId = [n]" using a by (simp add: sessions_of_def)
    with assms have second: "getOrCreateSession e d' testId studentId = (Inr n, d')"
      by (simp add: getOrCreateSession_def single_def)
    from first fields second show ?thesis
      unfolding d'_def by (intro exI [of _ n]) simp
  qed
  have several: "\<exists>n. getOrCreateSession e d testId studentId =
                  (Inr n, d\<lparr>test_sessions := test_sessions d @ [n]\<rparr>)
             \<and> test_id n = testId \<and> student_id n = studentId
             \<and> status n = ''active'' \<and> started_at n = Some (now e)"
    if a: "1 < length (filter (\<lambda>s. test_id s = testId \<and> student_id s = studentId) (test_sessions d))
        \<and> \<not> fault e (InsertSession testId studentId)"
  proof -
    from a have "single False (sessions_of d testId studentId) = None"
      by (auto simp: single_def sessions_of_def split: list.splits)
    with a have "getOrCreateSession e d testId studentId = (Inr n, d')"
      by (simp add: created)
    with fields show ?thesis
      unfolding d'_def by (intro exI [of _ n]) simp
  qed
  from one none several show ?thesis by (intro conjI impI)
qed

text \<open>
  The statement of C7 at the pair (\<open>t1\<close>, \<open>u1\<close>): on the store that holds the one session
  \<open>s1\<close> of that pair, on the empty store, and on the store that holds two sessions of it.
\<close>

theorem getOrCreateSession_answered_lookup_witness:
  "\<not> fault env_ok (SelectSession ''t1'' ''u1'')
   \<and> \<not> fault env_ok (InsertSession ''t1'' ''u1'')
   \<and> filter (\<lambda>s. test_id s = ''t1'' \<and> student_id s = ''u1'') (test_sessions db_s1) = [session_s1]
   \<and> getOrCreateSession env_ok db_s1 ''t1'' ''u1'' = (Inr session_s1, db_s1)
   \<and> filter (\<lambda>s. test_id s = ''t1'' \<and> student_id s = ''u1'') (test_sessions db_empty) = []
   \<and> (\<exists>n. getOrCreateSession env_ok db_empty ''t1'' ''u1'' =
              (Inr n, db_empty\<lparr>test_sessions := test_sessions db_empty @ [n]\<rparr>)
         \<and> test_id n = ''t1'' \<and> student_id n = ''u1''
         \<and> status n = ''active'' \<and> started_at n = Some (now env_ok)
         \<and> getOrCreateSession env_ok (db_empty\<lparr>test_sessions := test_sessions db_empty @ [n]\<rparr>)
              ''t1'' ''u1'' =
              (Inr n, db_empty\<lparr>test_sessions := test_sessions db_empty @ [n]\<rparr>))
   \<and> 1 < length (filter (\<lambda>s. test_id s = ''t1'' \<and> student_id s = ''u1'')
                   (test_sessions db_two_sessions))
   \<and> (\<exists>n. getOrCreateSession env_ok db_two_sessions ''t1'' ''u1'' =
              (Inr n, db_two_sessions\<lparr>test_sessions := test_sessions db_two_sessions @ [n]\<rparr>)
         \<and> test_id n = ''t1'' \<and> student_id n = ''u1''
         \<and> status n = ''active'' \<and> started_at n = Some (now env_ok))"
proof -
  have h: "\<not> fault env_ok (SelectSession ''t1'' ''u1'')" by (simp add: env_ok_def)
  have hi: "\<not> fault env_ok (InsertSession ''t1'' ''u1'')" by (simp add: env_ok_def)
  have one: "filter (\<lambda>s. test_id s = ''t1'' \<and> student_id s = ''u1'') (test_sessions db_s1) = [session_s1]"
    by (simp add: db_s1_def session_s1_def)
  have none: "filter (\<lambda>s. test_id s = ''t1'' \<and> student_id s = ''u1'') (test_sessions db_empty) = []"
    by (simp add: db_empty_def)
  have two: "1 < length (filter (\<lambda>s. test_id s = ''t1'' \<and> student_id s = ''u1'')
                   (test_sessions db_two_sessions))"
    by (simp add: db_two_sessions_def session_s1_def session_s2_def)
  from getOrCreateSession_answered_lookup [OF h, of db_s1 session_s1]
    getOrCreateSession_answered_lookup [OF h, of db_empty]
    getOrCreateSession_answered_lookup [OF h, of db_two_sessions] h hi one none two
  show ?thesis by blast
qed

text \<open>
  Claim C7 as the spec words it ("if a session for the pair exists it is returned unchanged
  and no new session is created") fails. The store \<open>db_two_sessions\<close> holds the sessions
  \<open>s1\<close> and \<open>s2\<close> of the pair (\<open>t1\<close>, \<open>u1\<close>) and answers every request: the call leaves
  three sessions. The store \<open>db_s1\<close> holds the session \<open>s1\<close> of the pair and refuses the
  lookup, whose error the code never reads: the call leaves two sessions.
\<close>

theorem getOrCreateSession_duplicate_counterexample:
  "session_s1 \<in> set (test_sessions db_two_sessions)
   \<and> test_id session_s1 = ''t1'' \<and> student_id session_s1 = ''u1''
   \<and> length (test_sessions db_two_sessions) = 2
   \<and> length (test_sessions (snd (getOrCreateSession env_ok db_two_sessions ''t1'' ''u1''))) = 3
   \<and> session_s1 \<in> set (test_sessions db_s1)
   \<and> length (test_sessions db_s1) = 1
   \<and> length (test_sessions (snd (getOrCreateSession env_lookup_refused db_s1 ''t1'' ''u1''))) = 2"
  by (simp add: getOrCreateSession_def single_def sessions_of_def Let_def example_defs)

section \<open>getLiveStats\<close>

text \<open>
  Claim C8. For all stores, \<open>gradedAnswers + pendingGrading = totalAnswers\<close> in the result
  of \<open>getLiveStats\<close>, where \<open>totalAnswers\<close> is the number of answers and \<open>gradedAnswers\<close>
  the number of answers whose \<open>graded_by\<close> is not null; \<open>pendingGrading\<close> is never
  negative.
\<close>

theorem getLiveStats_answer_counts:
  "gradedAnswers (getLiveStats sessions as) + pendingGrading (getLiveStats sessions as) =
     totalAnswers (getLiveStats sessions as)
   \<and> totalAnswers (getLiveStats sessions as) = int (length as)
   \<and> gradedAnswers (getLiveStats sessions as) =
       int (length (filter (\<lambda>a. graded_by a \<noteq> None) as))
   \<and> 0 \<le> pendingGrading (getLiveStats sessions as)"
  by (simp add: getLiveStats_def Let_def)



section \<open>terminateStudent and allowContinue\<close>

text \<open>
  Claim C9. For a session \<open>s\<close> of the store with the id \<open>sid\<close>: after
  \<open>terminateStudent(sid)\<close> the store holds \<open>s\<close> with the status \<open>terminated\<close>, and every
  session with that id has this status; after \<open>allowContinue(sid)\<close> on that store it holds
  \<open>s\<close> with the status \<open>in_progress\<close>, and every session with that id has this status.
\<close>

theorem terminate_then_allowContinue:
  assumes "s \<in> set (test_sessions d)" and "s_id s = sid"
  shows "s\<lparr>status := ''terminated''\<rparr> \<in> set (test_sessions (terminateStudent d sid))
    \<and> (\<forall>r \<in> set (test_sessions (terminateStudent d sid)). s_id r = sid \<longrightarrow> status r = ''terminated'')
    \<and> s\<lparr>status := ''in_progress''\<rparr> \<in> set (test_sessions (allowContinue (terminateStudent d sid) sid))
    \<and> (\<forall>r \<in> set (test_sessions (allowContinue (terminateStudent d sid) sid)).
          s_id r = sid \<longrightarrow> status r = ''in_progress'')"
proof -
  define stop where "stop = (\<lambda>s::test_session. s\<lparr>status := ''terminated''\<rparr>)"
  define go where "go = (\<lambda>s::test_session. s\<lparr>status := ''in_progress''\<rparr>)"
  define P where "P = (\<lambda>s::test_session. s_id s = sid)"
  have t: "test_sessions (terminateStudent d sid) = update_where P stop (test_sessions d)"
    by (simp add: terminateStudent_def stop_def P_def)
  have a: "test_sessions (allowContinue (terminateStudent d sid) sid) =
      update_where P go (update_where P stop (test_sessions d))"
    by (simp add: allowContinue_def terminateStudent_def stop_def go_def P_def)
  have Ps: "P s" using assms(2) by (simp add: P_def)
  have m1: "stop s \<in> set (update_where P stop (test_sessions d))"
    using assms(1) Ps by (rule set_update_where)
  have "P (stop s)" using Ps by (simp add: P_def stop_def)
  with m1 have m2: "go (stop s) \<in> set (update_where P go (update_where P stop (test_sessions d)))"
    by (rule set_update_where)
  have gs: "go (stop s) = s\<lparr>status := ''in_progress''\<rparr>" by (simp add: go_def stop_def)
  have all: "status r = status (f r)" if "r \<in> set (update_where P f rows)" "P r"
      "\<And>x. P (f x) = P x" "\<And>x. f (f x) = f x" for r f rows
  proof -
    from update_where_cases [OF that(1)] that(2)
    obtain r0 where "r = f r0" by auto
    then show ?thesis using that(4) by simp
  qed
  have s1: "status r = ''terminated''" if "r \<in> set (update_where P stop (test_sessions d))" "P r" for r
    using all [OF that, of ] by (simp add: stop_def P_def)
  have s2: "status r = ''in_progress''"
    if "r \<in> set (update_where P go (update_where P stop (test_sessions d)))" "P r" for r
    using all [OF that] by (simp add: go_def P_def)
  show ?thesis
    unfolding t a using m1 m2 gs s1 s2 by (simp add: stop_def P_def)
qed

text \<open>
  The statement of C9 at the session \<open>s1\<close>.
\<close>

theorem terminate_then_allowContinue_witness:
  "session_s1 \<in> set (test_sessions db_s1) \<and> s_id session_s1 = ''s1''
   \<and> test_sessions (terminateStudent db_s1 ''s1'') = [session_s1\<lparr>status := ''terminated''\<rparr>]
   \<and> test_sessions (allowContinue (terminateStudent db_s1 ''s1'') ''s1'') =
       [session_s1\<lparr>status := ''in_progress''\<rparr>]"
proof -
  have h1: "session_s1 \<in> set (test_sessions db_s1)" by (simp add: db_s1_def)
  have h2: "s_id session_s1 = ''s1''" by (simp add: session_s1_def)
  have e1: "test_sessions (terminateStudent db_s1 ''s1'') = [session_s1\<lparr>status := ''terminated''\<rparr>]"
    by (simp add: terminateStudent_def update_where_def db_s1_def session_s1_def)
  have e2: "test_sessions (allowContinue (terminateStudent db_s1 ''s1'') ''s1'') =
       [session_s1\<lparr>status := ''in_progress''\<rparr>]"
    by (simp add: allowContinue_def terminateStudent_def update_where_def db_s1_def session_s1_def)
  from terminate_then_allowContinue [OF h1 h2] h1 h2 e1 e2 show ?thesis by simp
qed

end
